theory Spec2Isabelle
  imports Main "HOL-Library.Multiset"
begin

section \<open>Go primitives used by \<open>args.go\<close>\<close>

subsection \<open>The type \<open>int\<close>\<close>

text \<open>
  Go's \<open>int\<close> is the 64-bit two's-complement integer of the amd64 and arm64 builds.
  A value is an \<open>int\<close> of HOL between \<open>minInt\<close> and \<open>maxInt\<close>; \<open>+\<close> and \<open>*\<close> of Go
  are the exact operation followed by \<open>wrapInt\<close>.
\<close>

definition maxInt :: int where
  "maxInt = 9223372036854775807"

definition minInt :: int where
  "minInt = - 9223372036854775808"

definition wrapInt :: "int \<Rightarrow> int" where
  "wrapInt x = (x + 9223372036854775808) mod 18446744073709551616 - 9223372036854775808"

subsection \<open>Errors and the ways the process stops\<close>

datatype errKind = ErrSyntax | ErrRange

text \<open>
  A Go \<open>error\<close> value: the \<open>*strconv.NumError\<close> of \<open>Atoi\<close> (the text it was given and
  \<open>strconv.ErrSyntax\<close> or \<open>strconv.ErrRange\<close>), or the error of one of the libraries
  (argparse, dateparse, config), known by its message only.
\<close>

datatype goError = NumError string errKind | LibError string

text \<open>
  \<open>Exit1 err msg\<close> is a call \<open>invalidArgs(parser, err, msg)\<close>: it writes \<open>msg\<close> and
  \<open>err\<close> (when there is one) and the usage text to the error stream and ends the
  process with \<open>os.Exit(1)\<close>. \<open>NilDereference\<close> is the run-time panic of reading a
  field through a nil pointer.
\<close>

datatype abort = NilDereference | Exit1 "goError option" string

definition invalidArgs :: "goError option \<Rightarrow> string \<Rightarrow> abort + 'a" where
  "invalidArgs err msg = Inl (Exit1 err msg)"

subsection \<open>Characters\<close>

definition isDigit :: "char \<Rightarrow> bool" where
  "isDigit c = (c \<in> set ''0123456789'')"

definition isLetter :: "char \<Rightarrow> bool" where
  "isLetter c = (c \<in> set ''abcdefghijklmnopqrstuvwxyzABCDEFGHIJKLMNOPQRSTUVWXYZ'')"

definition digitVal :: "char \<Rightarrow> int" where
  "digitVal c = of_char c - 48"

text \<open>
  \<open>strings.ToLower\<close> on a string of ASCII bytes (every text it is given here is cut
  from a match of \<open>[0-9]*[a-zA-Z]*\<close>): \<open>A\<close> to \<open>Z\<close> move down by 32.
\<close>

definition lowerChar :: "char \<Rightarrow> char" where
  "lowerChar c =
     (if c \<in> set ''ABCDEFGHIJKLMNOPQRSTUVWXYZ'' then char_of (of_char c + (32::nat)) else c)"

definition ToLower :: "string \<Rightarrow> string" where
  "ToLower s = map lowerChar s"

subsection \<open>\<open>strconv.Atoi\<close>\<close>

text \<open>
  \<open>strconv.ParseUint(s, 10, 64)\<close>: the loop over the bytes of \<open>s\<close>. A byte that is
  not a decimal digit is a syntax error; \<open>cutoff\<close> and \<open>maxVal\<close> are checked before the
  next digit is added, so an overflow is reported at the digit that causes it. The
  \<open>uint64\<close> accumulator never wraps below these checks, and is an \<open>int\<close> of HOL that
  stays between 0 and \<open>maxUint64\<close>.
\<close>

definition maxUint64 :: int where
  "maxUint64 = 18446744073709551615"

definition cutoff :: int where
  "cutoff = maxUint64 div 10 + 1"

fun parseUintLoop :: "string \<Rightarrow> int \<Rightarrow> errKind + int" where
  "parseUintLoop [] n = Inr n"
| "parseUintLoop (c # cs) n =
     (if \<not> isDigit c then Inl ErrSyntax
      else if cutoff \<le> n then Inl ErrRange
      else if maxUint64 < n * 10 + digitVal c then Inl ErrRange
      else parseUintLoop cs (n * 10 + digitVal c))"

definition ParseUint :: "string \<Rightarrow> errKind + int" where
  "ParseUint s = (if s = [] then Inl ErrSyntax else parseUintLoop s 0)"

text \<open>
  \<open>strconv.ParseInt(s, 10, 0)\<close>: an optional sign, then \<open>ParseUint\<close>; the magnitude
  must fit the 64-bit \<open>int\<close>.
\<close>

definition ParseInt :: "string \<Rightarrow> errKind + int" where
  "ParseInt s =
     (case s of
        [] \<Rightarrow> Inl ErrSyntax
      | c # cs \<Rightarrow>
          let neg = (c = CHR ''-'');
              body = (if c = CHR ''+'' \<or> c = CHR ''-'' then cs else s)
          in (case ParseUint body of
                Inl e \<Rightarrow> Inl e
              | Inr un \<Rightarrow>
                  if \<not> neg \<and> 9223372036854775808 \<le> un then Inl ErrRange
                  else if neg \<and> 9223372036854775808 < un then Inl ErrRange
                  else Inr (if neg then - un else un)))"

text \<open>
  \<open>strconv.Atoi\<close>: its fast path for short texts and \<open>ParseInt\<close> give the same
  value; the error names the text that was parsed.
\<close>

definition Atoi :: "string \<Rightarrow> goError + int" where
  "Atoi s = (case ParseInt s of Inl k \<Rightarrow> Inl (NumError s k) | Inr n \<Rightarrow> Inr n)"

subsection \<open>\<open>regexp.FindAllString\<close> for \<open>([0-9]*)([a-zA-Z]*)\<close>\<close>

text \<open>
  \<open>utf8.DecodeRuneInString\<close>, the width only: the number of bytes of the rune at the
  head of a non-empty string, 1 for an ASCII byte and for a byte that starts no valid
  encoding.
\<close>

definition contByte :: "int \<Rightarrow> int \<Rightarrow> string \<Rightarrow> nat \<Rightarrow> bool" where
  "contByte lo hi s i = (i < length s \<and> lo \<le> of_char (s ! i) \<and> of_char (s ! i) \<le> hi)"

definition runeWidth :: "string \<Rightarrow> nat" where
  "runeWidth s =
     (let b = (of_char (hd s) :: int) in
      if b < 128 then 1
      else if 194 \<le> b \<and> b \<le> 223 then
        (if contByte 128 191 s 1 then 2 else 1)
      else if 224 \<le> b \<and> b \<le> 239 then
        (if contByte (if b = 224 then 160 else 128) (if b = 237 then 159 else 191) s 1
            \<and> contByte 128 191 s 2 then 3 else 1)
      else if 240 \<le> b \<and> b \<le> 244 then
        (if contByte (if b = 240 then 144 else 128) (if b = 244 then 143 else 191) s 1
            \<and> contByte 128 191 s 2 \<and> contByte 128 191 s 3 then 4 else 1)
      else 1)"

text \<open>
  The leftmost match of \<open>([0-9]*)([a-zA-Z]*)\<close> at the head of \<open>s\<close>: both stars are
  greedy, so it is the longest run of digits followed by the longest run of letters.
  It may be empty.
\<close>

definition matchPart :: "string \<Rightarrow> string" where
  "matchPart s = takeWhile isDigit s @ takeWhile isLetter (dropWhile isDigit s)"

text \<open>
  The loop of \<open>allMatches\<close>. \<open>s\<close> is the input from \<open>pos\<close> on and \<open>abut\<close> says that
  the previous match ended at \<open>pos\<close>. A non-empty match is delivered and the scan goes
  on behind it. An empty match is delivered unless it abuts the previous match; the
  scan then steps over one rune, or stops at the end of the input. The bound \<open>n\<close> of
  \<open>FindAllString(s, -1)\<close> is \<open>len(s) + 1\<close>, which the loop cannot reach.
\<close>

function allMatches :: "string \<Rightarrow> bool \<Rightarrow> string list" where
  "allMatches s abut =
     (if matchPart s = [] then
        (if abut then [] else [[]])
          @ (if s = [] then [] else allMatches (drop (runeWidth s) s) False)
      else matchPart s # allMatches (drop (length (matchPart s)) s) True)"
  by pat_completeness auto

termination
proof (relation "measure (\<lambda>(s, abut). length s)")
  show "wf (measure (\<lambda>(s, abut). length s))" by simp
next
  fix s :: string and abut :: bool
  assume "s \<noteq> []"
  moreover have "0 < runeWidth s" by (simp add: runeWidth_def Let_def)
  ultimately show
    "((drop (runeWidth s) s, False), (s, abut)) \<in> measure (\<lambda>(s, abut). length s)"
    by simp
next
  fix s :: string and abut :: bool
  assume "matchPart s \<noteq> []"
  then have "0 < length (matchPart s)" by simp
  moreover have "length (matchPart s) \<le> length s"
  proof -
    have "s = matchPart s @ dropWhile isLetter (dropWhile isDigit s)"
      by (simp add: matchPart_def)
    then have "length s = length (matchPart s) + length (dropWhile isLetter (dropWhile isDigit s))"
      by (metis length_append)
    then show ?thesis by simp
  qed
  ultimately have "length s - length (matchPart s) < length s" by linarith
  then show
    "((drop (length (matchPart s)) s, True), (s, abut)) \<in> measure (\<lambda>(s, abut). length s)"
    by simp
qed

definition FindAllString :: "string \<Rightarrow> string list" where
  "FindAllString s = allMatches s False"

section \<open>\<open>timeRangeToSeconds\<close>\<close>

text \<open>
  The body of the \<open>for\<close> loop over the parts, with the accumulator passed along. A part
  of one byte or none is skipped. Otherwise the last byte is the unit and the bytes
  before it are the number; a number \<open>Atoi\<close> rejects and a unit outside \<open>s\<close>, \<open>m\<close>,
  \<open>h\<close>, \<open>d\<close> end the process through \<open>invalidArgs\<close> (in the \<open>default\<close> case \<open>err\<close> is
  nil).
\<close>

fun rangeLoop :: "string list \<Rightarrow> int \<Rightarrow> abort + int" where
  "rangeLoop [] accumulator = Inr accumulator"
| "rangeLoop (part # parts) accumulator =
     (if 1 < length part then
        (let unit = drop (length part - 1) part;
             numberStr = take (length part - 1) part
         in case Atoi numberStr of
              Inl err \<Rightarrow> invalidArgs (Some err) ''Time range can't be parsed''
            | Inr num \<Rightarrow>
                if ToLower unit = ''s'' then
                  rangeLoop parts (wrapInt (accumulator + num))
                else if ToLower unit = ''m'' then
                  rangeLoop parts (wrapInt (accumulator + wrapInt (num * 60)))
                else if ToLower unit = ''h'' then
                  rangeLoop parts (wrapInt (accumulator + wrapInt (num * 3600)))
                else if ToLower unit = ''d'' then
                  rangeLoop parts (wrapInt (accumulator + wrapInt (num * 86400)))
                else invalidArgs None ''Time range can't be parsed'')
      else rangeLoop parts accumulator)"

definition timeRangeToSeconds :: "string \<Rightarrow> abort + int" where
  "timeRangeToSeconds timeRange = rangeLoop (FindAllString timeRange) 0"

section \<open>\<open>strToDate\<close>\<close>

subsection \<open>\<open>regexp.MatchString\<close> for an anchored pattern\<close>

text \<open>
  The patterns of this program are built from byte classes, concatenation,
  alternation, \<open>?\<close> and \<open>*\<close>. \<open>MatchString\<close> is used with a pattern between \<open>^\<close> and
  \<open>$\<close> only, which asks whether the whole text is in the pattern's language; that is
  decided here by derivatives, byte by byte.
\<close>

datatype regex =
    Void
  | Eps
  | Class string
  | Cat regex regex
  | Alt regex regex
  | Opt regex
  | Star regex

fun nullable :: "regex \<Rightarrow> bool" where
  "nullable Void = False"
| "nullable Eps = True"
| "nullable (Class cs) = False"
| "nullable (Cat r1 r2) = (nullable r1 \<and> nullable r2)"
| "nullable (Alt r1 r2) = (nullable r1 \<or> nullable r2)"
| "nullable (Opt r) = True"
| "nullable (Star r) = True"

fun deriv :: "char \<Rightarrow> regex \<Rightarrow> regex" where
  "deriv c Void = Void"
| "deriv c Eps = Void"
| "deriv c (Class cs) = (if c \<in> set cs then Eps else Void)"
| "deriv c (Cat r1 r2) =
     (if nullable r1 then Alt (Cat (deriv c r1) r2) (deriv c r2) else Cat (deriv c r1) r2)"
| "deriv c (Alt r1 r2) = Alt (deriv c r1) (deriv c r2)"
| "deriv c (Opt r) = deriv c r"
| "deriv c (Star r) = Cat (deriv c r) (Star r)"

fun MatchString :: "regex \<Rightarrow> string \<Rightarrow> bool" where
  "MatchString r [] = nullable r"
| "MatchString r (c # cs) = MatchString (deriv c r) cs"

definition digit :: regex where
  "digit = Class ''0123456789''"

definition lit :: "char \<Rightarrow> regex" where
  "lit c = Class [c]"

text \<open>
  The pattern of line 116,
  \<^verbatim>\<open>^[0-9]{1,2}:[0-9]{2}(:[0-9]{2})?([ ]*(am|pm|AM|PM)?)?$\<close>.
\<close>

definition timeOnly :: regex where
  "timeOnly =
     Cat (Cat digit (Opt digit))
    (Cat (lit CHR '':'')
    (Cat (Cat digit digit)
    (Cat (Opt (Cat (lit CHR '':'') (Cat digit digit)))
         (Opt (Cat (Star (lit CHR '' ''))
                   (Opt (Alt (Cat (lit CHR ''a'') (lit CHR ''m''))
                        (Alt (Cat (lit CHR ''p'') (lit CHR ''m''))
                        (Alt (Cat (lit CHR ''A'') (lit CHR ''M''))
                             (Cat (lit CHR ''P'') (lit CHR ''M'')))))))))))"

subsection \<open>The world outside the program\<close>

text \<open>
  What the program reads from its surroundings and from libraries that are not part of
  it, for a time type \<open>'t\<close> and a configuration type \<open>'c\<close>:
  \<^item> \<open>userHomeDir\<close>: \<open>HomeDir\<close> of \<open>user.Current()\<close>, \<open>None\<close> when that call fails (it
    then returns a nil \<open>*User\<close>, whose error \<open>expandPath\<close> discards);
  \<^item> \<open>timeNow n\<close>: what the call number \<open>n\<close> of \<open>time.Now()\<close> returns in this run;
  \<^item> \<open>formatDate t\<close>: \<open>t.Format("2006-01-02")\<close>;
  \<^item> \<open>parseLocal\<close>: \<open>dateparse.ParseLocal\<close>;
  \<^item> \<open>yearOf t\<close>: \<open>t.Year()\<close>; \<open>addYears t y\<close>: \<open>t.AddDate(y, 0, 0)\<close>;
  \<^item> \<open>configNew\<close>: \<open>config.New\<close>;
  \<^item> \<open>stdoutIsTerminal\<close>: whether standard output is a terminal, which the
    \<open>ioctl\<close> that is commented out in \<open>isTty\<close> would report.
\<close>

record ('t, 'c) world =
  userHomeDir :: "string option"
  timeNow :: "nat \<Rightarrow> 't"
  formatDate :: "'t \<Rightarrow> string"
  parseLocal :: "string \<Rightarrow> goError + 't"
  yearOf :: "'t \<Rightarrow> int"
  addYears :: "'t \<Rightarrow> int \<Rightarrow> 't"
  configNew :: "string \<Rightarrow> goError + 'c"
  stdoutIsTerminal :: bool

subsection \<open>The function\<close>

text \<open>
  \<open>tick\<close> counts the calls of \<open>time.Now()\<close> made so far; the function returns the
  date and the new count. After \<open>invalidArgs\<close> nothing runs, so the \<open>return nil\<close> of
  line 129 is never reached.
\<close>

definition strToDate ::
  "('t, 'c) world \<Rightarrow> string \<Rightarrow> string \<Rightarrow> bool \<Rightarrow> nat \<Rightarrow> abort + ('t option \<times> nat)" where
  "strToDate w dateStr errorStr defaultToNow tick =
     (if 0 < length dateStr then
        (let matched = MatchString timeOnly dateStr;
             text = (if matched then formatDate w (timeNow w tick) @ '' '' @ dateStr
                     else dateStr);
             tick1 = (if matched then Suc tick else tick)
         in case parseLocal w text of
              Inl err \<Rightarrow> invalidArgs (Some err) errorStr
            | Inr dateTime \<Rightarrow>
                if yearOf w dateTime = 0 then
                  Inr (Some (addYears w dateTime (yearOf w (timeNow w tick1))), Suc tick1)
                else Inr (Some dateTime, tick1))
      else if defaultToNow then Inr (Some (timeNow w tick), Suc tick)
      else Inr (None, tick))"

section \<open>\<open>expandPath\<close>\<close>

definition HasPrefix :: "string \<Rightarrow> string \<Rightarrow> bool" where
  "HasPrefix s pre = (take (length pre) s = pre)"

text \<open>
  \<open>filepath.Clean\<close> on a Unix path, by its documented rules: the path is cut at the
  slashes; empty and \<open>.\<close> elements are dropped; a \<open>..\<close> element removes the element
  before it, is dropped at the root, and is kept at the head of a relative path. The
  elements kept are joined by single slashes, behind a slash when the path is rooted;
  the empty result is \<open>.\<close>. \<open>out\<close> holds the elements kept so far, last one first.
\<close>

fun splitSlash :: "string \<Rightarrow> string list" where
  "splitSlash [] = [[]]"
| "splitSlash (c # cs) =
     (if c = CHR ''/'' then [] # splitSlash cs
      else (case splitSlash cs of [] \<Rightarrow> [[c]] | e # es \<Rightarrow> (c # e) # es))"

definition cleanStep :: "bool \<Rightarrow> string list \<Rightarrow> string \<Rightarrow> string list" where
  "cleanStep rooted out elem =
     (if elem = [] \<or> elem = ''.'' then out
      else if elem = ''..'' then
        (case out of
           [] \<Rightarrow> if rooted then [] else [''..'']
         | e # es \<Rightarrow> if e = ''..'' then ''..'' # out else es)
      else elem # out)"

fun joinSlash :: "string list \<Rightarrow> string" where
  "joinSlash [] = []"
| "joinSlash [e] = e"
| "joinSlash (e # es) = e @ ''/'' @ joinSlash es"

definition Clean :: "string \<Rightarrow> string" where
  "Clean path =
     (if path = [] then ''.''
      else
        let rooted = (hd path = CHR ''/'');
            out = rev (foldl (cleanStep rooted) [] (splitSlash path))
        in if rooted then ''/'' @ joinSlash out
           else if out = [] then ''.''
           else joinSlash out)"

text \<open>\<open>filepath.Join\<close> of two elements: empty leading elements are skipped.\<close>

definition Join :: "string \<Rightarrow> string \<Rightarrow> string" where
  "Join a b =
     (if a \<noteq> [] then Clean (a @ ''/'' @ b)
      else if b \<noteq> [] then Clean b
      else [])"

text \<open>
  With no current user \<open>usr\<close> is nil, and \<open>usr.HomeDir\<close> panics.
\<close>

definition expandPath :: "('t, 'c) world \<Rightarrow> string \<Rightarrow> abort + string" where
  "expandPath w configPath =
     (if HasPrefix configPath ''~/'' then
        (case userHomeDir w of
           None \<Rightarrow> Inl NilDereference
         | Some dir \<Rightarrow> Inr (Join dir (drop 2 configPath)))
      else Inr configPath)"

section \<open>\<open>parseArgs\<close>\<close>

definition DefaultLimit :: int where
  "DefaultLimit = 300"

definition DefaultRange :: string where
  "DefaultRange = ''2h''"

definition DefaultConfigPath :: string where
  "DefaultConfigPath = ''~/.doglog''"

text \<open>The body of \<open>isTty\<close> is \<open>return true\<close>.\<close>

definition isTty :: bool where
  "isTty = True"

text \<open>
  What the user wrote on the command line, after argparse has read it: a string flag
  that was not given is empty, a boolean flag that was not given is false, and a flag
  declared with a \<open>Default\<close> is \<open>None\<close> when it was not given.
\<close>

record cli =
  serviceFlag :: string
  queryFlag :: string
  limitFlag :: "int option"
  tailFlag :: bool
  configFlag :: "string option"
  rangeFlag :: "string option"
  startFlag :: string
  endFlag :: string
  jsonFlag :: bool
  noColorsFlag :: bool

record ('t, 'c) options =
  service :: string
  query :: string
  limit :: int
  tail :: bool
  configPath :: string
  timeRange :: int
  startDate :: "'t option"
  endDate :: "'t option"
  json :: bool
  serverConfig :: "'c option"
  color :: bool

text \<open>
  \<open>parsed\<close> is the outcome of \<open>parser.Parse(os.Args)\<close>: its error, or the flags. The
  steps run in the order of the source, and the first one that stops the process
  decides the result.
\<close>

definition parseArgs :: "('t, 'c) world \<Rightarrow> goError + cli \<Rightarrow> abort + ('t, 'c) options" where
  "parseArgs w parsed =
     (case expandPath w DefaultConfigPath of
        Inl a \<Rightarrow> Inl a
      | Inr defaultConfigPath \<Rightarrow>
     (case parsed of
        Inl err \<Rightarrow> invalidArgs (Some err) []
      | Inr args \<Rightarrow>
     (case strToDate w (startFlag args) ''The --start date can't be parsed'' False 0 of
        Inl a \<Rightarrow> Inl a
      | Inr (startTime, tick1) \<Rightarrow>
     (case strToDate w (endFlag args) ''The --end date can't be parsed'' True tick1 of
        Inl a \<Rightarrow> Inl a
      | Inr (endTime, tick2) \<Rightarrow>
     (let limit0 = (case limitFlag args of None \<Rightarrow> DefaultLimit | Some l \<Rightarrow> l);
          limit1 = (if limit0 \<le> 0 then DefaultLimit else limit0);
          tail1 = (if startTime \<noteq> None then False else tailFlag args);
          newQuery = ''service:'' @ serviceFlag args;
          query1 = (if 0 < length (serviceFlag args) then
                      (if 0 < length (queryFlag args) then newQuery @ '' AND '' @ queryFlag args
                       else newQuery)
                    else queryFlag args)
      in case timeRangeToSeconds
                (case rangeFlag args of None \<Rightarrow> DefaultRange | Some r \<Rightarrow> r) of
           Inl a \<Rightarrow> Inl a
         | Inr seconds \<Rightarrow>
             (let opts = \<lparr> service = serviceFlag args,
                           query = query1,
                           limit = limit1,
                           tail = tail1,
                           configPath = (case configFlag args of
                                           None \<Rightarrow> defaultConfigPath | Some p \<Rightarrow> p),
                           timeRange = seconds,
                           startDate = startTime,
                           endDate = endTime,
                           json = jsonFlag args,
                           serverConfig = None,
                           color = (\<not> noColorsFlag args \<and> isTty) \<rparr>
              in case configNew w (configPath opts) of
                   Inl err \<Rightarrow> invalidArgs (Some err) []
                 | Inr cfg \<Rightarrow> Inr (opts\<lparr>serverConfig := Some cfg\<rparr>)))))))"

section \<open>Go's \<open>time.Time\<close>\<close>

text \<open>
  A \<open>time.Time\<close> as its wall-clock reading in its location: what \<open>Year()\<close>,
  \<open>Month()\<close>, \<open>Day()\<close>, \<open>Hour()\<close>, \<open>Minute()\<close>, \<open>Second()\<close> and \<open>Nanosecond()\<close>
  return. A world whose time type is \<open>Time\<close> and whose \<open>formatDate\<close> and \<open>yearOf\<close> are
  \<open>FormatYMD\<close> and \<open>Year\<close> has Go's time library.
\<close>

record Time =
  Year :: int
  Month :: int
  Day :: int
  Hour :: int
  Minute :: int
  Second :: int
  Nanosecond :: int






section \<open>Notions of the specification\<close>

subsection \<open>Durations written as segments\<close>

text \<open>
  The specification speaks of a text composed of segments, each an integer followed by
  a unit. A segment is a pair of its digits and its unit byte. It is well formed when
  there is at least one digit, all of them decimal, and the unit is one of \<open>s\<close>, \<open>m\<close>,
  \<open>h\<close>, \<open>d\<close> in either case; it fits when the number its digits denote is an \<open>int\<close>
  of Go.
\<close>

type_synonym segment = "string \<times> char"

definition valFrom :: "int \<Rightarrow> string \<Rightarrow> int" where
  "valFrom n ds = foldl (\<lambda>n c. n * 10 + digitVal c) n ds"

definition digitsVal :: "string \<Rightarrow> int" where
  "digitsVal ds = valFrom 0 ds"

definition wellFormed :: "segment \<Rightarrow> bool" where
  "wellFormed seg =
     (fst seg \<noteq> [] \<and> list_all isDigit (fst seg) \<and> snd seg \<in> set ''smhdSMHD'')"

definition fitsInt :: "segment \<Rightarrow> bool" where
  "fitsInt seg = (digitsVal (fst seg) \<le> maxInt)"

definition segText :: "segment \<Rightarrow> string" where
  "segText seg = fst seg @ [snd seg]"

definition compose :: "segment list \<Rightarrow> string" where
  "compose segs = concat (map segText segs)"

text \<open>The multiplier table of the specification: s = 1, m = 60, h = 3600, d = 86400.\<close>

definition unitMultiplier :: "char \<Rightarrow> int" where
  "unitMultiplier u =
     (if lowerChar u = CHR ''s'' then 1
      else if lowerChar u = CHR ''m'' then 60
      else if lowerChar u = CHR ''h'' then 3600
      else if lowerChar u = CHR ''d'' then 86400
      else 0)"

definition segSeconds :: "segment \<Rightarrow> int" where
  "segSeconds seg = digitsVal (fst seg) * unitMultiplier (snd seg)"

subsection \<open>Times of day\<close>




subsection \<open>A run to evaluate\<close>

text \<open>
  A world for concrete runs. Times are texts: the clock reads \<open>2019-01-04 09:15:00\<close>
  at every call, and the date parser accepts every text and returns it as it is, so
  that a resolved date shows which text \<open>strToDate\<close> handed to the parser. The
  configuration loader returns the path it was given. Standard output is redirected
  to a file.
\<close>

definition recordingWorld :: "(string, string) world" where
  "recordingWorld =
     \<lparr> userHomeDir = Some ''/home/zach'',
       timeNow = (\<lambda>n. ''2019-01-04 09:15:00''),
       formatDate = take 10,
       parseLocal = (\<lambda>s. Inr s),
       yearOf = (\<lambda>t. 2019),
       addYears = (\<lambda>t y. t),
       configNew = (\<lambda>p. Inr p),
       stdoutIsTerminal = False \<rparr>"

text \<open>The command line \<open>doglog\<close> with no flag.\<close>

definition noFlags :: cli where
  "noFlags =
     \<lparr> serviceFlag = [], queryFlag = [], limitFlag = None, tailFlag = False,
       configFlag = None, rangeFlag = None, startFlag = [], endFlag = [],
       jsonFlag = False, noColorsFlag = False \<rparr>"

text \<open>
  A command line that gives the service \<open>send-email\<close>, the query \<open>status:error\<close>, the
  limit \<open>-5\<close>, the tail flag, the range \<open>1d2h30m\<close> and the start \<open>1:32pm\<close>, and the
  options it resolves to in \<open>recordingWorld\<close>; then the options that the command line
  with no flag resolves to.
\<close>

definition sampleFlags :: cli where
  "sampleFlags =
     \<lparr> serviceFlag = ''send-email'', queryFlag = ''status:error'', limitFlag = Some (- 5),
       tailFlag = True, configFlag = None, rangeFlag = Some ''1d2h30m'',
       startFlag = ''1:32pm'', endFlag = [], jsonFlag = False, noColorsFlag = False \<rparr>"

definition sampleOptions :: "(string, string) options" where
  "sampleOptions =
     \<lparr> service = ''send-email'', query = ''service:send-email AND status:error'',
       limit = 300, tail = False, configPath = ''/home/zach/.doglog'', timeRange = 95400,
       startDate = Some ''2019-01-04 1:32pm'', endDate = Some ''2019-01-04 09:15:00'',
       json = False, serverConfig = Some ''/home/zach/.doglog'', color = True \<rparr>"

definition plainOptions :: "(string, string) options" where
  "plainOptions =
     \<lparr> service = [], query = [], limit = 300, tail = False,
       configPath = ''/home/zach/.doglog'', timeRange = 7200, startDate = None,
       endDate = Some ''2019-01-04 09:15:00'', json = False,
       serverConfig = Some ''/home/zach/.doglog'', color = True \<rparr>"



section \<open>Properties of \<open>timeRangeToSeconds\<close>\<close>

subsection \<open>Digits and \<open>Atoi\<close>\<close>

lemma digitVal_range: "isDigit c \<Longrightarrow> 0 \<le> digitVal c \<and> digitVal c \<le> 9"
  by (auto simp: isDigit_def digitVal_def)

lemma valFrom_Nil [simp]: "valFrom n [] = n"
  by (simp add: valFrom_def)

lemma valFrom_Cons [simp]: "valFrom n (c # cs) = valFrom (n * 10 + digitVal c) cs"
  by (simp add: valFrom_def)

lemma valFrom_ge: "list_all isDigit ds \<Longrightarrow> 0 \<le> n \<Longrightarrow> n \<le> valFrom n ds"
proof (induction ds arbitrary: n)
  case Nil
  then show ?case by simp
next
  case (Cons c cs)
  then have d: "0 \<le> digitVal c" using digitVal_range by simp
  with Cons.prems have "n \<le> n * 10 + digitVal c" by simp
  moreover have "n * 10 + digitVal c \<le> valFrom (n * 10 + digitVal c) cs"
    using Cons d by simp
  ultimately show ?case by simp
qed

lemma parseUintLoop_digits:
  "list_all isDigit ds \<Longrightarrow> 0 \<le> n \<Longrightarrow> n \<le> maxUint64 \<Longrightarrow>
   parseUintLoop ds n = (if valFrom n ds \<le> maxUint64 then Inr (valFrom n ds) else Inl ErrRange)"
proof (induction ds arbitrary: n)
  case Nil
  then show ?case by simp
next
  case (Cons c cs)
  then have dig: "isDigit c" and d: "0 \<le> digitVal c" using digitVal_range by simp_all
  let ?m = "n * 10 + digitVal c"
  have m0: "0 \<le> ?m" using Cons.prems d by simp
  have ge: "?m \<le> valFrom ?m cs" using Cons.prems m0 by (simp add: valFrom_ge)
  show ?case
  proof (cases "cutoff \<le> n \<or> maxUint64 < ?m")
    case True
    then have "maxUint64 < ?m" using d by (auto simp: cutoff_def maxUint64_def)
    then have "\<not> valFrom ?m cs \<le> maxUint64" using ge by simp
    then show ?thesis using True dig by auto
  next
    case False
    then show ?thesis using Cons m0 dig by simp
  qed
qed

lemma Atoi_digits:
  assumes "ds \<noteq> []" and "list_all isDigit ds"
  shows "Atoi ds = (if digitsVal ds \<le> maxInt then Inr (digitsVal ds) else Inl (NumError ds ErrRange))"
proof -
  obtain c cs where ds: "ds = c # cs" using assms(1) by (cases ds) auto
  then have "isDigit c" using assms(2) by simp
  then have nosign: "c \<noteq> CHR ''+''" "c \<noteq> CHR ''-''" by (auto simp: isDigit_def)
  have pu: "ParseUint ds = (if digitsVal ds \<le> maxUint64 then Inr (digitsVal ds) else Inl ErrRange)"
    using assms parseUintLoop_digits [of ds 0]
    by (simp add: ParseUint_def digitsVal_def maxUint64_def)
  show ?thesis
    using nosign pu ds
    by (auto simp: Atoi_def ParseInt_def maxInt_def maxUint64_def Let_def)
qed

lemma digit_not_letter: "isDigit c \<Longrightarrow> \<not> isLetter c"
  by (auto simp: isDigit_def isLetter_def)

lemma unit_letter: "u \<in> set ''smhdSMHD'' \<Longrightarrow> isLetter u"
  by (auto simp: isLetter_def)

lemma matchPart_segment:
  assumes "list_all isDigit ds" and "isLetter u" and "rest = [] \<or> isDigit (hd rest)"
  shows "matchPart (ds @ u # rest) = ds @ [u]"
proof -
  have nd: "\<not> isDigit u" using assms(2) digit_not_letter by blast
  have a: "takeWhile isDigit (ds @ u # rest) = ds"
    using assms(1) nd by (simp add: takeWhile_append2 list_all_iff)
  have b: "dropWhile isDigit (ds @ u # rest) = u # rest"
    using assms(1) nd by (simp add: dropWhile_append2 list_all_iff)
  have c: "takeWhile isLetter rest = []"
    using assms(3) digit_not_letter by (cases rest) auto
  show ?thesis
    using assms(2) by (simp add: matchPart_def a b c)
qed

lemma compose_head:
  "list_all wellFormed segs \<Longrightarrow> compose segs = [] \<or> isDigit (hd (compose segs))"
proof (cases segs)
  case Nil
  then show ?thesis by (simp add: compose_def)
next
  case (Cons seg segs')
  assume "list_all wellFormed segs"
  then have "wellFormed seg" using Cons by simp
  then obtain c cs where "fst seg = c # cs" "isDigit c"
    by (cases "fst seg") (auto simp: wellFormed_def)
  then show ?thesis using Cons by (simp add: compose_def segText_def)
qed

lemma allMatches_compose:
  "list_all wellFormed segs \<Longrightarrow> allMatches (compose segs) True = map segText segs"
proof (induction segs)
  case Nil
  then show ?case by (simp add: compose_def matchPart_def)
next
  case (Cons seg segs)
  then have wf: "wellFormed seg" and rest: "list_all wellFormed segs" by simp_all
  have c: "compose (seg # segs) = fst seg @ snd seg # compose segs"
    by (simp add: compose_def segText_def)
  have m: "matchPart (compose (seg # segs)) = segText seg"
    unfolding c segText_def
    using wf compose_head [OF rest] unit_letter
    by (intro matchPart_segment) (auto simp: wellFormed_def)
  have ne: "segText seg \<noteq> []" by (simp add: segText_def)
  have d: "drop (length (segText seg)) (compose (seg # segs)) = compose segs"
    by (simp add: compose_def)
  show ?case
    using Cons.IH [OF rest] m ne d
    by (subst allMatches.simps) simp
qed

lemma FindAllString_compose:
  assumes "list_all wellFormed segs"
  shows "FindAllString (compose segs) = (if segs = [] then [[]] else map segText segs)"
proof (cases segs)
  case Nil
  then show ?thesis by (simp add: FindAllString_def compose_def matchPart_def)
next
  case (Cons seg segs')
  then have wf: "wellFormed seg" and rest: "list_all wellFormed segs'" using assms by simp_all
  have c: "compose (seg # segs') = fst seg @ snd seg # compose segs'"
    by (simp add: compose_def segText_def)
  have m: "matchPart (compose (seg # segs')) = segText seg"
    unfolding c segText_def
    using wf compose_head [OF rest] unit_letter
    by (intro matchPart_segment) (auto simp: wellFormed_def)
  have ne: "segText seg \<noteq> []" by (simp add: segText_def)
  have d: "drop (length (segText seg)) (compose (seg # segs')) = compose segs'"
    by (simp add: compose_def)
  show ?thesis
    unfolding FindAllString_def Cons
    using allMatches_compose [OF rest] m ne d
    by (subst allMatches.simps) simp
qed

lemma wrapInt_add_right: "wrapInt (a + wrapInt b) = wrapInt (a + b)"
proof -
  have "(a + ((b + 9223372036854775808) mod 18446744073709551616 - 9223372036854775808)
          + 9223372036854775808) mod 18446744073709551616
        = (a + (b + 9223372036854775808) mod 18446744073709551616) mod 18446744073709551616"
    by simp
  also have "\<dots> = (a + (b + 9223372036854775808)) mod 18446744073709551616"
    by (rule mod_add_right_eq)
  finally show ?thesis by (simp add: wrapInt_def add.assoc)
qed

lemma wrapInt_add_left: "wrapInt (wrapInt a + b) = wrapInt (a + b)"
  using wrapInt_add_right [of b a] by (simp add: add.commute)

lemma wrapInt_idem: "wrapInt (wrapInt a) = wrapInt a"
  using wrapInt_add_right [of 0 a] by simp

lemma wrapInt_id: "minInt \<le> x \<Longrightarrow> x \<le> maxInt \<Longrightarrow> wrapInt x = x"
  by (simp add: wrapInt_def minInt_def maxInt_def)

lemma lowerChar_units:
  "lowerChar CHR ''s'' = CHR ''s''" "lowerChar CHR ''m'' = CHR ''m''"
  "lowerChar CHR ''h'' = CHR ''h''" "lowerChar CHR ''d'' = CHR ''d''"
  "lowerChar CHR ''S'' = CHR ''s''" "lowerChar CHR ''M'' = CHR ''m''"
  "lowerChar CHR ''H'' = CHR ''h''" "lowerChar CHR ''D'' = CHR ''d''"
  by code_simp+

lemma rangeLoop_segment:
  assumes "wellFormed seg" and "fitsInt seg"
  shows "rangeLoop (segText seg # parts) acc = rangeLoop parts (wrapInt (acc + segSeconds seg))"
proof -
  obtain ds u where seg: "seg = (ds, u)" by (cases seg)
  have ds: "ds \<noteq> []" "list_all isDigit ds" and u: "u \<in> set ''smhdSMHD''"
    using assms(1) by (simp_all add: wellFormed_def seg)
  have atoi: "Atoi ds = Inr (digitsVal ds)"
    using Atoi_digits [OF ds] assms(2) by (simp add: fitsInt_def seg)
  from u consider "u = CHR ''s''" | "u = CHR ''m''" | "u = CHR ''h''" | "u = CHR ''d''"
    | "u = CHR ''S''" | "u = CHR ''M''" | "u = CHR ''H''" | "u = CHR ''D''"
    by auto
  then show ?thesis
    by cases
      (simp_all add: ds atoi ToLower_def lowerChar_units segSeconds_def
         unitMultiplier_def seg segText_def wrapInt_add_right)
qed

lemma rangeLoop_segments:
  "list_all wellFormed segs \<Longrightarrow> list_all fitsInt segs \<Longrightarrow> wrapInt acc = acc \<Longrightarrow>
   rangeLoop (map segText segs) acc = Inr (wrapInt (acc + sum_list (map segSeconds segs)))"
proof (induction segs arbitrary: acc)
  case Nil
  then show ?case by simp
next
  case (Cons seg segs)
  have "rangeLoop (map segText (seg # segs)) acc
        = rangeLoop (map segText segs) (wrapInt (acc + segSeconds seg))"
    using Cons.prems by (simp add: rangeLoop_segment del: rangeLoop.simps)
  also have "\<dots> = Inr (wrapInt (wrapInt (acc + segSeconds seg) + sum_list (map segSeconds segs)))"
    using Cons.prems by (intro Cons.IH) (simp_all add: wrapInt_idem)
  finally show ?case by (simp add: wrapInt_add_left add.assoc)
qed

lemma timeRangeToSeconds_compose:
  assumes "list_all wellFormed segs" and "list_all fitsInt segs"
  shows "timeRangeToSeconds (compose segs) = Inr (wrapInt (sum_list (map segSeconds segs)))"
proof (cases "segs = []")
  case True
  then show ?thesis
    by (simp add: timeRangeToSeconds_def FindAllString_compose wrapInt_def)
next
  case False
  have "wrapInt 0 = 0" by (simp add: wrapInt_def)
  then show ?thesis
    using False assms rangeLoop_segments [of segs 0]
    by (simp add: timeRangeToSeconds_def FindAllString_compose)
qed

lemma segSeconds_nonneg: "wellFormed seg \<Longrightarrow> 0 \<le> segSeconds seg"
  using valFrom_ge [of "fst seg" 0]
  by (simp add: segSeconds_def wellFormed_def digitsVal_def unitMultiplier_def)

lemma sum_segSeconds_nonneg: "list_all wellFormed segs \<Longrightarrow> 0 \<le> sum_list (map segSeconds segs)"
  by (induction segs) (simp_all add: segSeconds_nonneg)

lemma compose_append: "compose (sa @ sb) = compose sa @ compose sb"
  by (simp add: compose_def)




subsection \<open>The claims about durations\<close>

text \<open>
  Claim C3 as it is stated fails. The text \<open>99999999999999999999s\<close> is one segment
  with unit \<open>s\<close>, and the parser does not return its value: \<open>Atoi\<close> reports a number
  out of range and the process ends. The text \<open>9223372036854775807s1s\<close> is two
  segments whose values sum to \<open>2^63\<close>, and the parser returns \<open>- 2^63\<close>.
\<close>

theorem duration_sum_counterexample:
  "wellFormed (''99999999999999999999'', CHR ''s'')
   \<and> timeRangeToSeconds (compose [(''99999999999999999999'', CHR ''s'')])
       = Inl (Exit1 (Some (NumError ''99999999999999999999'' ErrRange))
                ''Time range can't be parsed'')
   \<and> list_all wellFormed [(''9223372036854775807'', CHR ''s''), (''1'', CHR ''s'')]
   \<and> sum_list (map segSeconds [(''9223372036854775807'', CHR ''s''), (''1'', CHR ''s'')])
       = 9223372036854775808
   \<and> timeRangeToSeconds (compose [(''9223372036854775807'', CHR ''s''), (''1'', CHR ''s'')])
       = Inr (- 9223372036854775808)"
  by code_simp

text \<open>
  Claim C3, amended: for every text composed of zero or more segments, each a
  non-empty decimal integer that is at most \<open>2^63 - 1\<close> followed by a unit out of
  \<open>s\<close>, \<open>m\<close>, \<open>h\<close>, \<open>d\<close> in either case, \<open>timeRangeToSeconds\<close> returns the sum over
  the segments of integer times multiplier, reduced to the 64-bit range of \<open>int\<close>;
  that is the sum itself whenever the sum is at most \<open>2^63 - 1\<close>. The empty text gives
  0, \<open>2h\<close> gives 7200 and \<open>1d2h30m\<close> gives 95400.
\<close>

theorem duration_sum:
  assumes "list_all wellFormed segs" and "list_all fitsInt segs"
  shows "timeRangeToSeconds (compose segs) = Inr (wrapInt (sum_list (map segSeconds segs)))
     \<and> (sum_list (map segSeconds segs) \<le> maxInt \<longrightarrow>
          timeRangeToSeconds (compose segs) = Inr (sum_list (map segSeconds segs)))
     \<and> timeRangeToSeconds [] = Inr 0
     \<and> timeRangeToSeconds ''2h'' = Inr 7200
     \<and> timeRangeToSeconds ''1d2h30m'' = Inr 95400"
proof -
  have general: "timeRangeToSeconds (compose segs) = Inr (wrapInt (sum_list (map segSeconds segs)))"
    using assms by (rule timeRangeToSeconds_compose)
  have exact: "wrapInt (sum_list (map segSeconds segs)) = sum_list (map segSeconds segs)"
    if "sum_list (map segSeconds segs) \<le> maxInt"
    using that sum_segSeconds_nonneg [OF assms(1)] by (intro wrapInt_id) (simp_all add: minInt_def)
  have e0: "timeRangeToSeconds [] = Inr 0" by code_simp
  have e1: "timeRangeToSeconds ''2h'' = Inr 7200" by code_simp
  have e2: "timeRangeToSeconds ''1d2h30m'' = Inr 95400" by code_simp
  show ?thesis using general exact e0 e1 e2 by simp
qed

text \<open>
  Claim C3, the amended statement at the segments \<open>1d\<close>, \<open>2H\<close>, \<open>30m\<close>.
\<close>

theorem duration_sum_witness:
  "list_all wellFormed [(''1'', CHR ''d''), (''2'', CHR ''H''), (''30'', CHR ''m'')]
   \<and> list_all fitsInt [(''1'', CHR ''d''), (''2'', CHR ''H''), (''30'', CHR ''m'')]
   \<and> compose [(''1'', CHR ''d''), (''2'', CHR ''H''), (''30'', CHR ''m'')] = ''1d2H30m''
   \<and> sum_list (map segSeconds [(''1'', CHR ''d''), (''2'', CHR ''H''), (''30'', CHR ''m'')]) = 95400
   \<and> timeRangeToSeconds ''1d2H30m'' = Inr 95400"
proof -
  let ?segs = "[(''1'', CHR ''d''), (''2'', CHR ''H''), (''30'', CHR ''m'')]"
  have wf: "list_all wellFormed ?segs" by code_simp
  have fits: "list_all fitsInt ?segs" by code_simp
  have composed: "compose ?segs = ''1d2H30m''" by code_simp
  have total: "sum_list (map segSeconds ?segs) = 95400" by code_simp
  have small: "sum_list (map segSeconds ?segs) \<le> maxInt" by code_simp
  have "timeRangeToSeconds (compose ?segs) = Inr (sum_list (map segSeconds ?segs))"
    using duration_sum [OF wf fits] small by blast
  then have "timeRangeToSeconds ''1d2H30m'' = Inr 95400"
    by (simp only: composed total)
  then show ?thesis using wf fits composed total by blast
qed




text \<open>
  Claim C9 as it is stated fails. \<open>9223372036854775807s\<close> and \<open>1s\<close> are each one
  valid segment; the parser returns \<open>2^63 - 1\<close> and 1 for them and \<open>- 2^63\<close> for their
  concatenation, which is not the sum of the two.
\<close>

theorem concat_additive_counterexample:
  "list_all wellFormed [(''9223372036854775807'', CHR ''s'')]
   \<and> list_all wellFormed [(''1'', CHR ''s'')]
   \<and> timeRangeToSeconds ''9223372036854775807s'' = Inr 9223372036854775807
   \<and> timeRangeToSeconds ''1s'' = Inr 1
   \<and> timeRangeToSeconds (''9223372036854775807s'' @ ''1s'') = Inr (- 9223372036854775808)
   \<and> (- 9223372036854775808 :: int) \<noteq> 9223372036854775807 + 1"
  by code_simp

text \<open>
  Claim C9, amended: for all texts \<open>a\<close> and \<open>b\<close> each composed of segments as in C3
  (integers at most \<open>2^63 - 1\<close>), \<open>timeRangeToSeconds\<close> returns a value for \<open>a\<close>, for
  \<open>b\<close> and for their concatenation, and the value for the concatenation is the sum of
  the other two reduced to the 64-bit range of \<open>int\<close>, so the sum itself whenever that
  lies in the range. The value is the same for \<open>b\<close> followed by \<open>a\<close> and for every
  other order of the segments. No bound is put on how often a unit occurs: \<open>1h1h\<close>
  gives 7200.
\<close>

theorem concat_additive:
  assumes "list_all wellFormed sa" and "list_all fitsInt sa"
    and "list_all wellFormed sb" and "list_all fitsInt sb"
  shows "\<exists>x y. timeRangeToSeconds (compose sa) = Inr x
           \<and> timeRangeToSeconds (compose sb) = Inr y
           \<and> timeRangeToSeconds (compose sa @ compose sb) = Inr (wrapInt (x + y))
           \<and> timeRangeToSeconds (compose sb @ compose sa) = Inr (wrapInt (x + y))
           \<and> (\<forall>segs. mset segs = mset (sa @ sb) \<longrightarrow>
                 timeRangeToSeconds (compose segs) = Inr (wrapInt (x + y)))
           \<and> (minInt \<le> x + y \<and> x + y \<le> maxInt \<longrightarrow>
                 timeRangeToSeconds (compose sa @ compose sb) = Inr (x + y))
           \<and> timeRangeToSeconds (''1h'' @ ''1h'') = Inr 7200"
proof -
  let ?x = "wrapInt (sum_list (map segSeconds sa))"
  let ?y = "wrapInt (sum_list (map segSeconds sb))"
  have total: "wrapInt (?x + ?y) = wrapInt (sum_list (map segSeconds (sa @ sb)))"
    by (simp add: wrapInt_add_left wrapInt_add_right)
  have a: "timeRangeToSeconds (compose sa) = Inr ?x"
    using assms(1,2) by (rule timeRangeToSeconds_compose)
  have b: "timeRangeToSeconds (compose sb) = Inr ?y"
    using assms(3,4) by (rule timeRangeToSeconds_compose)
  have perm: "timeRangeToSeconds (compose segs) = Inr (wrapInt (?x + ?y))"
    if m: "mset segs = mset (sa @ sb)" for segs
  proof -
    have s: "set segs = set (sa @ sb)" using m by (rule mset_eq_setD)
    have wf: "list_all wellFormed segs" and fits: "list_all fitsInt segs"
      using assms s by (auto simp: list_all_iff)
    have "sum_list (map segSeconds segs) = sum_list (map segSeconds (sa @ sb))"
      using m by (metis mset_map sum_mset_sum_list)
    then show ?thesis
      using timeRangeToSeconds_compose [OF wf fits] total by simp
  qed
  have ab: "timeRangeToSeconds (compose sa @ compose sb) = Inr (wrapInt (?x + ?y))"
    using perm [of "sa @ sb"] by (simp add: compose_append)
  have ba: "timeRangeToSeconds (compose sb @ compose sa) = Inr (wrapInt (?x + ?y))"
    using perm [of "sb @ sa"] by (simp add: compose_append)
  have exact: "minInt \<le> ?x + ?y \<and> ?x + ?y \<le> maxInt \<longrightarrow>
      timeRangeToSeconds (compose sa @ compose sb) = Inr (?x + ?y)"
    using ab by (simp add: wrapInt_id)
  have ex: "timeRangeToSeconds (''1h'' @ ''1h'') = Inr 7200" by code_simp
  show ?thesis using a b ab ba perm exact ex by blast
qed

text \<open>
  Claim C9, the amended statement at \<open>1h\<close> and \<open>30m1h\<close>.
\<close>

theorem concat_additive_witness:
  "list_all wellFormed [(''1'', CHR ''h'')] \<and> list_all fitsInt [(''1'', CHR ''h'')]
   \<and> list_all wellFormed [(''30'', CHR ''m''), (''1'', CHR ''h'')]
   \<and> list_all fitsInt [(''30'', CHR ''m''), (''1'', CHR ''h'')]
   \<and> (\<exists>x y. timeRangeToSeconds (compose [(''1'', CHR ''h'')]) = Inr x
         \<and> timeRangeToSeconds (compose [(''30'', CHR ''m''), (''1'', CHR ''h'')]) = Inr y
         \<and> timeRangeToSeconds
              (compose [(''1'', CHR ''h'')] @ compose [(''30'', CHR ''m''), (''1'', CHR ''h'')])
            = Inr (wrapInt (x + y)))"
proof -
  let ?sa = "[(''1'', CHR ''h'')]"
  let ?sb = "[(''30'', CHR ''m''), (''1'', CHR ''h'')]"
  have h1: "list_all wellFormed ?sa" by code_simp
  have h2: "list_all fitsInt ?sa" by code_simp
  have h3: "list_all wellFormed ?sb" by code_simp
  have h4: "list_all fitsInt ?sb" by code_simp
  show ?thesis using concat_additive [OF h1 h2 h3 h4] h1 h2 h3 h4 by blast
qed


section \<open>Properties of \<open>strToDate\<close>, \<open>expandPath\<close> and \<open>parseArgs\<close>\<close>

subsection \<open>Auxiliary facts\<close>











lemma strToDate_empty:
  "strToDate w [] errorStr defaultToNow tick =
     (if defaultToNow then Inr (Some (timeNow w tick), Suc tick) else Inr (None, tick))"
  by (simp add: strToDate_def)

lemma strToDate_nonempty_present:
  "dateStr \<noteq> [] \<Longrightarrow> strToDate w dateStr errorStr defaultToNow tick = Inr (r, tick') \<Longrightarrow> r \<noteq> None"
  by (auto simp: strToDate_def invalidArgs_def Let_def split: sum.splits if_splits)

lemma strToDate_default_present:
  "strToDate w dateStr errorStr True tick = Inr (r, tick') \<Longrightarrow> r \<noteq> None"
  by (cases "dateStr = []") (auto simp: strToDate_empty dest: strToDate_nonempty_present)

lemma parseArgs_success:
  assumes "parseArgs w parsed = Inr opts"
  shows "\<exists>args dflt startTime tick1 endTime tick2 seconds cfg.
           parsed = Inr args
         \<and> expandPath w DefaultConfigPath = Inr dflt
         \<and> strToDate w (startFlag args) ''The --start date can't be parsed'' False 0
             = Inr (startTime, tick1)
         \<and> strToDate w (endFlag args) ''The --end date can't be parsed'' True tick1
             = Inr (endTime, tick2)
         \<and> timeRangeToSeconds (case rangeFlag args of None \<Rightarrow> DefaultRange | Some r \<Rightarrow> r)
             = Inr seconds
         \<and> configNew w (configPath opts) = Inr cfg
         \<and> service opts = serviceFlag args
         \<and> query opts =
             (if serviceFlag args \<noteq> [] then
                (if queryFlag args \<noteq> [] then ''service:'' @ serviceFlag args @ '' AND '' @ queryFlag args
                 else ''service:'' @ serviceFlag args)
              else queryFlag args)
         \<and> limit opts =
             (let l = (case limitFlag args of None \<Rightarrow> DefaultLimit | Some l \<Rightarrow> l)
              in if l \<le> 0 then DefaultLimit else l)
         \<and> tail opts = (if startTime \<noteq> None then False else tailFlag args)
         \<and> configPath opts = (case configFlag args of None \<Rightarrow> dflt | Some p \<Rightarrow> p)
         \<and> timeRange opts = seconds
         \<and> startDate opts = startTime
         \<and> endDate opts = endTime
         \<and> json opts = jsonFlag args
         \<and> serverConfig opts = Some cfg
         \<and> color opts = (\<not> noColorsFlag args \<and> isTty)"
proof -
  obtain dflt where d: "expandPath w DefaultConfigPath = Inr dflt"
    using assms by (cases "expandPath w DefaultConfigPath") (simp_all add: parseArgs_def)
  obtain args where p: "parsed = Inr args"
    using assms d by (cases parsed) (simp_all add: parseArgs_def invalidArgs_def)
  obtain startTime tick1 where
    s: "strToDate w (startFlag args) ''The --start date can't be parsed'' False 0
          = Inr (startTime, tick1)"
    using assms d p
    by (cases "strToDate w (startFlag args) ''The --start date can't be parsed'' False 0")
       (auto simp: parseArgs_def)
  obtain endTime tick2 where
    e: "strToDate w (endFlag args) ''The --end date can't be parsed'' True tick1
          = Inr (endTime, tick2)"
    using assms d p s
    by (cases "strToDate w (endFlag args) ''The --end date can't be parsed'' True tick1")
       (auto simp: parseArgs_def)
  obtain seconds where
    r: "timeRangeToSeconds (case rangeFlag args of None \<Rightarrow> DefaultRange | Some r \<Rightarrow> r)
          = Inr seconds"
    using assms d p s e
    by (cases "timeRangeToSeconds (case rangeFlag args of None \<Rightarrow> DefaultRange | Some r \<Rightarrow> r)")
       (auto simp: parseArgs_def Let_def)
  obtain cfg where
    c: "configNew w (case configFlag args of None \<Rightarrow> dflt | Some p \<Rightarrow> p) = Inr cfg"
    using assms d p s e r
    by (cases "configNew w (case configFlag args of None \<Rightarrow> dflt | Some p \<Rightarrow> p)")
       (auto simp: parseArgs_def Let_def invalidArgs_def)
  have o: "opts =
      \<lparr> service = serviceFlag args,
        query = (if serviceFlag args \<noteq> [] then
                   (if queryFlag args \<noteq> [] then
                      ''service:'' @ serviceFlag args @ '' AND '' @ queryFlag args
                    else ''service:'' @ serviceFlag args)
                 else queryFlag args),
        limit = (let l = (case limitFlag args of None \<Rightarrow> DefaultLimit | Some l \<Rightarrow> l)
                 in if l \<le> 0 then DefaultLimit else l),
        tail = (if startTime \<noteq> None then False else tailFlag args),
        configPath = (case configFlag args of None \<Rightarrow> dflt | Some p \<Rightarrow> p),
        timeRange = seconds,
        startDate = startTime,
        endDate = endTime,
        json = jsonFlag args,
        serverConfig = Some cfg,
        color = (\<not> noColorsFlag args \<and> isTty) \<rparr>"
    using assms d p s e r c by (auto simp: parseArgs_def Let_def)
  show ?thesis
    using d p s e r c by (simp add: o)
qed

lemma parseArgs_limit:
  assumes "parseArgs w (Inr args) = Inr opts"
  shows "limit opts =
           (let l = (case limitFlag args of None \<Rightarrow> DefaultLimit | Some l \<Rightarrow> l)
            in if l \<le> 0 then DefaultLimit else l)"
  using parseArgs_success [OF assms] by auto

lemma parseArgs_limit_default:
  assumes "l \<le> 0"
  shows "parseArgs w (Inr (args\<lparr>limitFlag := Some l\<rparr>))
           = parseArgs w (Inr (args\<lparr>limitFlag := None\<rparr>))"
  using assms
  by (simp add: parseArgs_def DefaultLimit_def Let_def split del: if_split
        cong: sum.case_cong if_cong)

text \<open>The two runs of \<open>recordingWorld\<close>, evaluated.\<close>

lemma sample_run: "parseArgs recordingWorld (Inr sampleFlags) = Inr sampleOptions"
  by code_simp

lemma plain_run: "parseArgs recordingWorld (Inr noFlags) = Inr plainOptions"
  by code_simp

subsection \<open>The claims about resolution\<close>

text \<open>
  Claim C1: in every run that resolves, when the service value is not empty the
  resolved query is \<open>service:\<close> followed by the service value, followed by \<open> AND \<close>
  and the user's query when that query is not empty; when the service value is empty
  the query is the user's query unchanged.
\<close>

theorem query_merge:
  assumes "parseArgs w (Inr args) = Inr opts"
  shows "(serviceFlag args \<noteq> [] \<longrightarrow>
            query opts = ''service:'' @ serviceFlag args
                           @ (if queryFlag args \<noteq> [] then '' AND '' @ queryFlag args else []))
       \<and> (serviceFlag args = [] \<longrightarrow> query opts = queryFlag args)"
  using parseArgs_success [OF assms] by auto

text \<open>
  Claim C1 at the sample command line (service \<open>send-email\<close>, query
  \<open>status:error\<close>) and at the command line with no flag.
\<close>

theorem query_merge_witness:
  "parseArgs recordingWorld (Inr sampleFlags) = Inr sampleOptions
   \<and> serviceFlag sampleFlags = ''send-email'' \<and> queryFlag sampleFlags = ''status:error''
   \<and> query sampleOptions = ''service:send-email AND status:error''
   \<and> parseArgs recordingWorld (Inr noFlags) = Inr plainOptions
   \<and> serviceFlag noFlags = [] \<and> query plainOptions = queryFlag noFlags"
proof -
  have a: "serviceFlag sampleFlags = ''send-email''" "queryFlag sampleFlags = ''status:error''"
    by (simp_all add: sampleFlags_def)
  have b: "serviceFlag noFlags = []" by (simp add: noFlags_def)
  have "query sampleOptions = ''service:'' @ serviceFlag sampleFlags
          @ (if queryFlag sampleFlags \<noteq> [] then '' AND '' @ queryFlag sampleFlags else [])"
    using query_merge [OF sample_run] a by simp
  then have c: "query sampleOptions = ''service:send-email AND status:error''"
    by (simp add: a)
  have d: "query plainOptions = queryFlag noFlags"
    using query_merge [OF plain_run] b by simp
  show ?thesis using sample_run plain_run a b c d by simp
qed

text \<open>
  Claim C2: in every run that resolves with a start time present, \<open>tail\<close> is false
  whatever the tail flag was; a start text that is not empty always resolves to a
  start time that is present.
\<close>

theorem tail_off_with_start:
  assumes "parseArgs w (Inr args) = Inr opts"
  shows "(startDate opts \<noteq> None \<longrightarrow> tail opts = False)
       \<and> (startFlag args \<noteq> [] \<longrightarrow> startDate opts \<noteq> None \<and> tail opts = False)"
proof -
  from parseArgs_success [OF assms] obtain startTime tick1 where
    s: "strToDate w (startFlag args) ''The --start date can't be parsed'' False 0
          = Inr (startTime, tick1)"
    and o: "startDate opts = startTime" "tail opts = (if startTime \<noteq> None then False else tailFlag args)"
    by auto
  have "startTime \<noteq> None" if "startFlag args \<noteq> []"
    using that s by (rule strToDate_nonempty_present)
  then show ?thesis using o by auto
qed

text \<open>
  Claim C2 at the sample command line, which sets the tail flag and a start time.
\<close>

theorem tail_off_with_start_witness:
  "parseArgs recordingWorld (Inr sampleFlags) = Inr sampleOptions
   \<and> tailFlag sampleFlags = True \<and> startFlag sampleFlags \<noteq> []
   \<and> startDate sampleOptions \<noteq> None \<and> tail sampleOptions = False"
proof -
  have a: "tailFlag sampleFlags = True" "startFlag sampleFlags \<noteq> []"
    by (simp_all add: sampleFlags_def)
  show ?thesis using tail_off_with_start [OF sample_run] sample_run a by simp
qed




text \<open>
  Claim C5 does not hold of the code: \<open>color\<close> is to be true only if the output
  stream is an interactive terminal. In \<open>recordingWorld\<close> standard output is not a
  terminal, the command line with no flag does not pass \<open>--no-colors\<close>, and the run
  resolves \<open>color\<close> to true, because \<open>isTty\<close> returns true without looking.
\<close>

theorem color_ignores_terminal:
  "stdoutIsTerminal recordingWorld = False
   \<and> noColorsFlag noFlags = False
   \<and> map_sum id color (parseArgs recordingWorld (Inr noFlags)) = Inr True"
  by code_simp

text \<open>
  Claim C7: in every run that resolves, the limit is strictly positive; a limit given
  as zero or less is replaced by 300, and the run is then the very run of the same
  command line with the limit 300, or with no limit flag: the replacement is no
  error.
\<close>

theorem limit_positive:
  assumes "parseArgs w (Inr args) = Inr opts"
  shows "0 < limit opts
       \<and> (\<forall>l. limitFlag args = Some l \<and> l \<le> 0 \<longrightarrow>
             limit opts = 300
           \<and> parseArgs w (Inr (args\<lparr>limitFlag := Some 300\<rparr>)) = Inr opts
           \<and> parseArgs w (Inr (args\<lparr>limitFlag := None\<rparr>)) = Inr opts)"
proof -
  have l: "limit opts =
           (let l = (case limitFlag args of None \<Rightarrow> DefaultLimit | Some l \<Rightarrow> l)
            in if l \<le> 0 then DefaultLimit else l)"
    using assms by (rule parseArgs_limit)
  have pos: "0 < limit opts"
    unfolding l by (cases "limitFlag args") (simp_all add: DefaultLimit_def Let_def)
  have dflt: "limit opts = 300" if "limitFlag args = Some l" and "l \<le> 0" for l
    unfolding l using that by (simp add: DefaultLimit_def Let_def)
  have same: "parseArgs w (Inr (args\<lparr>limitFlag := None\<rparr>)) = Inr opts"
    if "limitFlag args = Some l" and "l \<le> 0" for l
  proof -
    have "args = args\<lparr>limitFlag := Some l\<rparr>" using that(1) by simp
    then have "parseArgs w (Inr args) = parseArgs w (Inr (args\<lparr>limitFlag := None\<rparr>))"
      using parseArgs_limit_default [OF that(2), of w args] by simp
    then show ?thesis using assms by simp
  qed
  have same300: "parseArgs w (Inr (args\<lparr>limitFlag := Some 300\<rparr>)) = Inr opts"
    if "limitFlag args = Some l" and "l \<le> 0" for l
  proof -
    have "parseArgs w (Inr (args\<lparr>limitFlag := Some 300\<rparr>))
            = parseArgs w (Inr (args\<lparr>limitFlag := None\<rparr>))"
      by (simp add: parseArgs_def DefaultLimit_def Let_def split del: if_split
            cong: sum.case_cong if_cong)
    then show ?thesis using same [OF that] by simp
  qed
  show ?thesis using pos dflt same same300 by blast
qed

text \<open>
  Claim C7 at the sample command line, whose limit is \<open>-5\<close>.
\<close>

theorem limit_positive_witness:
  "parseArgs recordingWorld (Inr sampleFlags) = Inr sampleOptions
   \<and> limitFlag sampleFlags = Some (- 5) \<and> (- 5 :: int) \<le> 0
   \<and> 0 < limit sampleOptions \<and> limit sampleOptions = 300
   \<and> parseArgs recordingWorld (Inr (sampleFlags\<lparr>limitFlag := Some 300\<rparr>)) = Inr sampleOptions"
proof -
  have a: "limitFlag sampleFlags = Some (- 5)" by (simp add: sampleFlags_def)
  have b: "(- 5 :: int) \<le> 0" by simp
  show ?thesis using limit_positive [OF sample_run] sample_run a b by blast
qed



text \<open>
  Claim C10: in every run that resolves, the end time is present; when the user gave
  no end text it is a reading of the clock, whether or not a start time was given.
\<close>

theorem end_always_present:
  assumes "parseArgs w (Inr args) = Inr opts"
  shows "endDate opts \<noteq> None
       \<and> (endFlag args = [] \<longrightarrow> (\<exists>n. endDate opts = Some (timeNow w n)))"
proof -
  from parseArgs_success [OF assms] obtain tick1 endTime tick2 where
    e: "strToDate w (endFlag args) ''The --end date can't be parsed'' True tick1
          = Inr (endTime, tick2)"
    and o: "endDate opts = endTime"
    by auto
  have "endTime \<noteq> None" using e by (rule strToDate_default_present)
  moreover have "endTime = Some (timeNow w tick1)" if "endFlag args = []"
    using e that by (simp add: strToDate_empty)
  ultimately show ?thesis using o by auto
qed

text \<open>
  Claim C10 at the command line with no flag: no start time, and the end time is the
  clock's reading.
\<close>

theorem end_always_present_witness:
  "parseArgs recordingWorld (Inr noFlags) = Inr plainOptions
   \<and> startFlag noFlags = [] \<and> endFlag noFlags = [] \<and> startDate plainOptions = None
   \<and> endDate plainOptions \<noteq> None
   \<and> (\<exists>n. endDate plainOptions = Some (timeNow recordingWorld n))"
proof -
  have a: "startFlag noFlags = []" "endFlag noFlags = []" by (simp_all add: noFlags_def)
  have b: "startDate plainOptions = None" by (simp add: plainOptions_def)
  show ?thesis using end_always_present [OF plain_run] plain_run a b by blast
qed

end
